theory Spec2Isabelle
  imports Main "HOL-Library.Sublist" "HOL-Library.AList"
begin

section \<open>JavaScript values\<close>

text \<open>
  The main process (the second, longer variant of main.js; the shorter main.js has the
  same tunnel, registration and persistence code without the AMD/Mac fields and without the
  renderer warning) and the renderer exchange plain JavaScript values: parsed JSON bodies,
  the content of registration.json, IPC arguments. Numbers are integers here; an object
  is a list of fields in which the first binding of a key is the one a lookup returns.
\<close>

datatype jsval =
    Undefined
  | Null
  | Bool bool
  | Num int
  | Str string
  | Arr "jsval list"
  | Obj "(string \<times> jsval) list"

text \<open>Truthiness, as used by \<open>!x\<close>, \<open>x || y\<close>, \<open>x && y\<close> and \<open>if (x)\<close>.\<close>

fun truthy :: "jsval \<Rightarrow> bool" where
  "truthy Undefined = False"
| "truthy Null = False"
| "truthy (Bool b) = b"
| "truthy (Num n) = (n \<noteq> 0)"
| "truthy (Str s) = (s \<noteq> [])"
| "truthy (Arr _) = True"
| "truthy (Obj _) = True"

definition js_or :: "jsval \<Rightarrow> jsval \<Rightarrow> jsval" where
  "js_or a b = (if truthy a then a else b)"

text \<open>
  Property read \<open>v.k\<close>. Reading a property of \<open>null\<close> or \<open>undefined\<close> throws a
  TypeError (left summand, with the message); a missing property is \<open>undefined\<close>. The
  keys read by the program (code, userId, serverId, username, error, registered, url) are
  not built-in properties of strings, numbers, booleans or arrays, so those yield
  \<open>undefined\<close>.
\<close>

definition cannot_read :: "string \<Rightarrow> string \<Rightarrow> string" where
  "cannot_read what k = ''Cannot read properties of '' @ what @ '' (reading '' @ k @ '')''"

fun getprop :: "jsval \<Rightarrow> string \<Rightarrow> string + jsval" where
  "getprop Undefined k = Inl (cannot_read ''undefined'' k)"
| "getprop Null k = Inl (cannot_read ''null'' k)"
| "getprop (Obj fs) k = Inr (case map_of fs k of None \<Rightarrow> Undefined | Some v \<Rightarrow> v)"
| "getprop _ k = Inr Undefined"

text \<open>Optional chaining \<open>v?.k\<close>: \<open>undefined\<close> instead of the TypeError.\<close>

definition getprop_opt :: "jsval \<Rightarrow> string \<Rightarrow> jsval" where
  "getprop_opt v k = (case getprop v k of Inl _ \<Rightarrow> Undefined | Inr x \<Rightarrow> x)"

section \<open>Strings\<close>

text \<open>\<open>s.includes(sub)\<close>\<close>

fun str_includes :: "string \<Rightarrow> string \<Rightarrow> bool" where
  "str_includes [] sub = (sub = [])"
| "str_includes (c # cs) sub = (prefix sub (c # cs) \<or> str_includes cs sub)"

text \<open>\<open>s.split('\n')\<close>: never empty, the last piece is what follows the last newline.\<close>

fun split_nl :: "string \<Rightarrow> string list" where
  "split_nl [] = [[]]"
| "split_nl (c # cs) =
     (if c = CHR 0x0A then [] # split_nl cs
      else (case split_nl cs of [] \<Rightarrow> [[c]] | l # ls \<Rightarrow> (c # l) # ls))"

text \<open>\<open>s.toLowerCase()\<close> on the ASCII letters.\<close>

definition lower_char :: "char \<Rightarrow> char" where
  "lower_char c =
     (let n = (of_char c :: nat) in if 65 \<le> n \<and> n \<le> 90 then char_of (n + 32) else c)"

definition toLowerCase :: "string \<Rightarrow> string" where
  "toLowerCase s = map lower_char s"

section \<open>The tunnel URL pattern\<close>

text \<open>
  The regular expression \<open>/(https:\/\/[a-z0-9\-]+\.trycloudflare\.com)/\<close> is a sequence of
  three items: a literal, a greedy one-or-more character class, a literal. Its only group
  is the whole match, so \<open>match[1]\<close> is the matched text.
\<close>

datatype rx_item = Lit string | Plus "char \<Rightarrow> bool"

text \<open>The class \<open>[a-z0-9\-]\<close>.\<close>

definition label_char :: "char \<Rightarrow> bool" where
  "label_char c =
     (let n = (of_char c :: nat)
      in (97 \<le> n \<and> n \<le> 122) \<or> (48 \<le> n \<and> n \<le> 57) \<or> n = 45)"

definition tunnel_rx :: "rx_item list" where
  "tunnel_rx = [Lit ''https://'', Plus label_char, Lit ''.trycloudflare.com'']"

text \<open>
  Greedy repetition with backtracking: \<open>backtrack k s n\<close> lets the class consume \<open>n\<close>
  characters and, when the rest of the pattern \<open>k\<close> fails there, one fewer, down to one.
\<close>

fun backtrack :: "(string \<Rightarrow> string option) \<Rightarrow> string \<Rightarrow> nat \<Rightarrow> string option" where
  "backtrack k s 0 = None"
| "backtrack k s (Suc n) =
     (case k (drop (Suc n) s) of
        Some m \<Rightarrow> Some (take (Suc n) s @ m)
      | None \<Rightarrow> backtrack k s n)"

text \<open>Match the items at the start of the text; the result is the matched text.\<close>

primrec match_items :: "rx_item list \<Rightarrow> string \<Rightarrow> string option" where
  "match_items [] = (\<lambda>s. Some [])"
| "match_items (i # rs) =
     (case i of
        Lit l \<Rightarrow> (\<lambda>s. if prefix l s
                       then map_option (\<lambda>m. l @ m) (match_items rs (drop (length l) s))
                       else None)
      | Plus P \<Rightarrow> (\<lambda>s. backtrack (match_items rs) s (length (takeWhile P s))))"

text \<open>\<open>text.match(re)\<close> without the global flag: the leftmost match.\<close>

fun rx_search :: "rx_item list \<Rightarrow> string \<Rightarrow> string option" where
  "rx_search p [] = match_items p []"
| "rx_search p (c # cs) =
     (case match_items p (c # cs) of Some m \<Rightarrow> Some m | None \<Rightarrow> rx_search p cs)"

definition match_tunnel_url :: "string \<Rightarrow> string option" where
  "match_tunnel_url output = rx_search tunnel_rx output"

text \<open>The form of a quick-tunnel URL, stated without the matcher.\<close>

definition is_tunnel_url :: "string \<Rightarrow> bool" where
  "is_tunnel_url u =
     (\<exists>label. u = ''https://'' @ label @ ''.trycloudflare.com'' \<and> label \<noteq> [] \<and>
        (\<forall>c \<in> set label. label_char c))"

section \<open>The registration file\<close>

text \<open>
  registration.json in the user-data directory. The program looks at its text only through
  \<open>JSON.parse\<close>, so a text is modelled by what \<open>JSON.parse\<close> makes of it: the
  value it yields, or \<open>NotJson\<close> for a text on which it throws (an empty, truncated or
  otherwise malformed file). \<open>Unreadable\<close> is a file that exists and whose read throws.
\<close>

datatype file_text = Json jsval | NotJson

datatype file_state = Absent | Unreadable | Present file_text

text \<open>
  How a call of \<open>writeFileSync\<close> on registration.json ends: it completes; it throws
  before the file is opened, which leaves the file as it was; or it throws after the file
  was opened for writing, which leaves a truncated text. A call of \<open>unlinkSync\<close>
  completes or throws (with the message given), and then the file is as it was.
\<close>

datatype write_outcome = Written | OpenThrows string | WriteThrows string

text \<open>
  \<open>JSON.parse(JSON.stringify(v, null, 2))\<close>: an \<open>undefined\<close> array element comes
  back as \<open>null\<close>. A field bound to \<open>undefined\<close> is dropped by \<open>JSON.stringify\<close>;
  it stays in the list here, since it reads as \<open>undefined\<close> either way.
\<close>

fun json_clone :: "jsval \<Rightarrow> jsval" where
  "json_clone (Arr xs) = Arr (map (\<lambda>x. if x = Undefined then Null else json_clone x) xs)"
| "json_clone (Obj fs) = Obj (map (\<lambda>kv. (fst kv, json_clone (snd kv))) fs)"
| "json_clone v = v"

text \<open>Assignment \<open>o.k = v\<close> on a parsed object.\<close>

fun setprop :: "jsval \<Rightarrow> string \<Rightarrow> jsval \<Rightarrow> jsval" where
  "setprop (Obj fs) k v = Obj (AList.update k v fs)"
| "setprop other k v = other"

text \<open>A caught exception: \<open>error.message\<close> and \<open>error.response?.data\<close>.\<close>

datatype js_error = JsError string jsval

text \<open>What axios resolves to (\<open>response.data\<close>) or rejects with.\<close>

datatype http_result = Response jsval | HttpError string jsval

section \<open>Collaborators of the main process\<close>

record system_info =
  si_deviceId :: string
  si_osInfo :: string
  si_hardware :: string
  si_platform :: string
  si_release :: string
  si_nvidiaDriver :: string
  si_cudaVersion :: string
  si_gpuType :: jsval
  si_amdInfo :: jsval
  si_macInfo :: jsval

text \<open>The body of the POST to /server/register.\<close>

record payload =
  link_code :: string
  deviceId :: string
  osInfo :: string
  hardware :: string
  url :: string
  models :: "jsval list"

text \<open>
  What the outside answers during one operation: \<open>collectSystemInfo()\<close> (its result
  with \<open>osInfo\<close> and \<open>hardware\<close> already passed through \<open>JSON.stringify\<close>, or the
  message of what it throws), \<open>fetchAvailableModels()\<close> (which catches its own errors),
  the directory service's answer to a payload, the configured address of the local
  inference service, and how the calls of \<open>unlinkSync\<close> and \<open>writeFileSync\<close> on
  registration.json end.
\<close>

record env =
  collectSystemInfo :: "string + system_info"
  fetchAvailableModels :: "jsval list"
  post_register :: "payload \<Rightarrow> http_result"
  OLLAMA_SERVER_URL :: string
  unlinkSync :: "string option"
  writeFileSync :: write_outcome

record app_state =
  detectedTunnelUrl :: "string option"
  cloudflaredProcess :: bool
  registration_file :: file_state

definition initial_state :: app_state where
  "initial_state =
     \<lparr>detectedTunnelUrl = None, cloudflaredProcess = False, registration_file = Absent\<rparr>"

text \<open>\<open>if (url)\<close> on a value that is a string or \<open>null\<close>.\<close>

fun url_truthy :: "string option \<Rightarrow> bool" where
  "url_truthy None = False"
| "url_truthy (Some u) = (u \<noteq> [])"

section \<open>getCloudflaredUrl\<close>

fun first_tunnel_line :: "string list \<Rightarrow> string option" where
  "first_tunnel_line [] = None"
| "first_tunnel_line (line # lines) =
     (if str_includes line ''https://'' \<and> str_includes line ''trycloudflare.com''
      then (case match_tunnel_url line of
              Some m \<Rightarrow> Some m
            | None \<Rightarrow> first_tunnel_line lines)
      else first_tunnel_line lines)"

text \<open>
  The argument is the answer of the metrics endpoint. A failed request and a body that
  is not a string (no \<open>split\<close>) both end in the catch block, hence \<open>null\<close>.
\<close>

definition getCloudflaredUrl :: "http_result \<Rightarrow> string option" where
  "getCloudflaredUrl metrics =
     (case metrics of
        Response (Str body) \<Rightarrow> first_tunnel_line (split_nl body)
      | _ \<Rightarrow> None)"

section \<open>updateServerUrlIfRegistered\<close>

text \<open>
  The result is the file afterwards, the payloads posted to /server/register, and the
  exception that reached the catch block, if any (the catch block logs it, and in the
  longer variant of main.js sends it to the renderer as a warning). The messages of the
  file-system and parse errors stand for whatever the platform reports.
\<close>

definition updateServerUrlIfRegistered ::
    "env \<Rightarrow> string \<Rightarrow> file_state \<Rightarrow> file_state \<times> payload list \<times> js_error option" where
  "updateServerUrlIfRegistered e newUrl file =
     (case file of
        Absent \<Rightarrow> (file, [], None)
      | Unreadable \<Rightarrow> (file, [], Some (JsError ''EACCES: permission denied, open'' Undefined))
      | Present NotJson \<Rightarrow> (file, [], Some (JsError ''Unexpected end of JSON input'' Undefined))
      | Present (Json registration) \<Rightarrow>
          if \<not> truthy registration \<or> \<not> truthy (getprop_opt registration ''registered'')
               \<or> \<not> truthy (getprop_opt registration ''serverId'')
          then (file, [], None)
          else if getprop_opt registration ''url'' = Str newUrl
          then (file, [], None)
          else
            (case collectSystemInfo e of
               Inl msg \<Rightarrow> (file, [], Some (JsError msg Undefined))
             | Inr sysInfo \<Rightarrow>
                 let availableModels = fetchAvailableModels e in
                 (case getprop_opt registration ''serverId'' of
                    Str serverId \<Rightarrow>
                      let p = \<lparr>link_code = toLowerCase serverId,
                               deviceId = si_deviceId sysInfo,
                               osInfo = si_osInfo sysInfo,
                               hardware = si_hardware sysInfo,
                               url = newUrl,
                               models = availableModels\<rparr>
                      in (case post_register e p of
                            HttpError msg data \<Rightarrow> (file, [p], Some (JsError msg data))
                          | Response data \<Rightarrow>
                              (case writeFileSync e of
                                 Written \<Rightarrow>
                                   (Present (Json (json_clone
                                      (setprop registration ''url'' (Str newUrl)))),
                                    [p], None)
                               | OpenThrows msg \<Rightarrow> (file, [p], Some (JsError msg Undefined))
                               | WriteThrows msg \<Rightarrow>
                                   (Present NotJson, [p], Some (JsError msg Undefined))))
                  | _ \<Rightarrow>
                      (file, [],
                       Some (JsError ''registration.serverId.toLowerCase is not a function''
                               Undefined)))))"

section \<open>startCloudflaredTunnel\<close>

datatype stream = Stdout | Stderr

type_synonym chunk = "stream \<times> string"

text \<open>
  The two \<open>data\<close> listeners share the local variables \<open>tunnelUrl\<close> and \<open>found\<close>
  (the pair).
\<close>

fun on_data :: "string option \<times> bool \<Rightarrow> chunk \<Rightarrow> string option \<times> bool" where
  "on_data (tunnelUrl, found) (Stdout, output) =
     (case match_tunnel_url output of
        Some m \<Rightarrow> if \<not> found then (Some m, True) else (tunnelUrl, found)
      | None \<Rightarrow> (tunnelUrl, found))"
| "on_data (tunnelUrl, found) (Stderr, output) =
     (case match_tunnel_url output of
        Some m \<Rightarrow> if \<not> found then (Some m, True) else (tunnelUrl, found)
      | None \<Rightarrow> (tunnelUrl, found))"

text \<open>
  The wait loop of up to 30 half-second sleeps. \<open>arrivals k\<close> are the chunks the
  subprocess emits, in order of delivery, while the loop sleeps for the \<open>k\<close>-th time.
\<close>

function wait_for_url ::
    "(nat \<Rightarrow> chunk list) \<Rightarrow> string option \<times> bool \<Rightarrow> nat \<Rightarrow> string option \<times> bool" where
  "wait_for_url arrivals st attempts =
     (if \<not> snd st \<and> attempts < 30
      then wait_for_url arrivals (foldl on_data st (arrivals attempts)) (attempts + 1)
      else st)"
  by pat_completeness auto
termination
  by (relation "measure (\<lambda>(arrivals, st, attempts). 30 - attempts)") auto

declare wait_for_url.simps [simp del]

text \<open>
  The subprocess as seen by one call: whether \<open>cloudflared --version\<close> runs, whether
  \<open>spawn\<close> returns a handle, and what arrives on the two streams. The choice of the
  binary's path and its permission bits come before and do not touch the state.
\<close>

record tunnel_env =
  version_check_ok :: bool
  spawn_ok :: bool
  arrivals :: "nat \<Rightarrow> chunk list"

definition startCloudflaredTunnel ::
    "env \<Rightarrow> tunnel_env \<Rightarrow> app_state \<Rightarrow> app_state \<times> payload list \<times> string option" where
  "startCloudflaredTunnel e t s =
     (if \<not> version_check_ok t then (s, [], None)
      else if \<not> spawn_ok t then (s, [], None)
      else
        let s1 = s\<lparr>cloudflaredProcess := True\<rparr>;
            (tunnelUrl, found) = wait_for_url (arrivals t) (None, False) 0
        in if url_truthy tunnelUrl
           then (case tunnelUrl of
                   Some u \<Rightarrow>
                     let (file', posts, err) =
                           updateServerUrlIfRegistered e u (registration_file s1)
                     in (s1\<lparr>detectedTunnelUrl := Some u, registration_file := file'\<rparr>,
                         posts, Some u)
                 | None \<Rightarrow> (s1, [], None))
           else (s1, [], None))"

section \<open>monitorServices\<close>

text \<open>
  The tunnel half of the periodic check; \<open>metrics\<close> is the answer of the metrics
  endpoint and \<open>t\<close> the subprocess started when the tunnel is down. The probe of the
  inference service before it only logs.
\<close>

definition monitorServices ::
    "env \<Rightarrow> http_result \<Rightarrow> tunnel_env \<Rightarrow> app_state \<Rightarrow> app_state \<times> payload list" where
  "monitorServices e metrics t s =
     (let tunnelUrl = getCloudflaredUrl metrics in
      if url_truthy tunnelUrl
      then (case tunnelUrl of
              Some u \<Rightarrow>
                let (file', posts, err) = updateServerUrlIfRegistered e u (registration_file s)
                in (s\<lparr>detectedTunnelUrl := Some u, registration_file := file'\<rparr>, posts)
            | None \<Rightarrow> (s, []))
      else
        let (s', posts, newTunnelUrl) = startCloudflaredTunnel e t s in (s', posts))"

section \<open>The register-server handler\<close>

text \<open>
  The wait for a tunnel URL: at most \<open>maxAttempts\<close> probes of the metrics endpoint,
  one second apart; \<open>metrics k\<close> is the endpoint's answer to probe \<open>k\<close>.
\<close>

definition maxAttempts :: nat where
  "maxAttempts = 60"

function wait_for_tunnel :: "(nat \<Rightarrow> http_result) \<Rightarrow> nat \<Rightarrow> string option" where
  "wait_for_tunnel metrics attempts =
     (if attempts < maxAttempts
      then (let freshUrl = getCloudflaredUrl (metrics attempts) in
            if url_truthy freshUrl then freshUrl
            else wait_for_tunnel metrics (attempts + 1))
      else None)"
  by pat_completeness auto
termination
  by (relation "measure (\<lambda>(metrics, attempts). maxAttempts - attempts)") auto

declare wait_for_tunnel.simps [simp del]

text \<open>The \<open>data\<close> object of a successful answer of the handler.\<close>

record reg_data =
  rd_registered :: bool
  rd_userId :: jsval
  rd_serverId :: jsval
  rd_username :: jsval
  rd_url :: string
  rd_os :: string
  rd_device :: string
  rd_models :: "jsval list"
  rd_nvidiaDriver :: string
  rd_cudaVersion :: string
  rd_gpuType :: jsval
  rd_amdInfo :: jsval
  rd_macInfo :: jsval

text \<open>\<open>{ success: true, data }\<close> or \<open>{ success: false, error }\<close>.\<close>

datatype register_result = RegSuccess reg_data | RegFailure jsval

text \<open>
  The error reported by the inner catch block:
  \<open>remoteError.response?.data?.error || remoteError.message || '...'\<close>.
\<close>

definition remote_error :: "js_error \<Rightarrow> jsval" where
  "remote_error err =
     (case err of JsError msg data \<Rightarrow>
        js_or (getprop_opt data ''error'')
          (js_or (Str msg) (Str ''Failed to register with Whistant server'')))"

text \<open>
  The handler returns the state (only the cached tunnel URL can change), the payloads
  posted and its answer. It never touches the registration file.
\<close>

definition register_server ::
    "env \<Rightarrow> (nat \<Rightarrow> http_result) \<Rightarrow> string \<Rightarrow> app_state
       \<Rightarrow> app_state \<times> payload list \<times> register_result" where
  "register_server e metrics linkCode s =
     (case collectSystemInfo e of
        Inl msg \<Rightarrow>
          (s, [], RegFailure (js_or (Str msg) (Str ''Failed to collect system information'')))
      | Inr sys \<Rightarrow>
          let (publicUrl, s') =
                (case detectedTunnelUrl s of
                   Some cached \<Rightarrow>
                     if cached \<noteq> [] then (cached, s)
                     else (case wait_for_tunnel metrics 0 of
                             Some freshUrl \<Rightarrow> (freshUrl, s\<lparr>detectedTunnelUrl := Some freshUrl\<rparr>)
                           | None \<Rightarrow> (OLLAMA_SERVER_URL e, s))
                 | None \<Rightarrow>
                     (case wait_for_tunnel metrics 0 of
                        Some freshUrl \<Rightarrow> (freshUrl, s\<lparr>detectedTunnelUrl := Some freshUrl\<rparr>)
                      | None \<Rightarrow> (OLLAMA_SERVER_URL e, s)));
              availableModels = fetchAvailableModels e;
              p = \<lparr>link_code = toLowerCase linkCode,
                   deviceId = si_deviceId sys,
                   osInfo = si_osInfo sys,
                   hardware = si_hardware sys,
                   url = publicUrl,
                   models = availableModels\<rparr>
          in (case post_register e p of
                HttpError msg data \<Rightarrow> (s', [p], RegFailure (remote_error (JsError msg data)))
              | Response data \<Rightarrow>
                  (case getprop data ''code'' of
                     Inl type_error \<Rightarrow>
                       (s', [p], RegFailure (remote_error (JsError type_error Undefined)))
                   | Inr code \<Rightarrow>
                       if code \<noteq> Str ''SERVER_REGISTER_SUCCESS''
                            \<and> \<not> truthy (getprop_opt data ''userId'')
                       then (s', [p],
                             RegFailure (remote_error
                               (JsError ''Server did not confirm registration'' Undefined)))
                       else (s', [p],
                             RegSuccess
                               \<lparr>rd_registered = True,
                                rd_userId = getprop_opt data ''userId'',
                                rd_serverId = getprop_opt data ''serverId'',
                                rd_username = getprop_opt data ''username'',
                                rd_url = publicUrl,
                                rd_os = si_platform sys @ '' '' @ si_release sys,
                                rd_device = si_deviceId sys,
                                rd_models = availableModels,
                                rd_nvidiaDriver = si_nvidiaDriver sys,
                                rd_cudaVersion = si_cudaVersion sys,
                                rd_gpuType = si_gpuType sys,
                                rd_amdInfo = si_amdInfo sys,
                                rd_macInfo = si_macInfo sys\<rparr>))))"

section \<open>The save-registration and load-registration handlers\<close>

text \<open>\<open>{ success: true }\<close> or \<open>{ success: false, error }\<close>.\<close>

datatype save_result = SaveOk | SaveFailed string

text \<open>
  The handler's catch block answers \<open>success: false\<close> with the message of whatever
  \<open>unlinkSync\<close> or \<open>writeFileSync\<close> throws. \<open>JSON.stringify(undefined)\<close> is
  \<open>undefined\<close>, which \<open>writeFileSync\<close> rejects with a TypeError before it opens the
  file.
\<close>

definition save_registration ::
    "env \<Rightarrow> jsval \<Rightarrow> file_state \<Rightarrow> file_state \<times> save_result" where
  "save_registration e data file =
     (if data = Null
      then (if file \<noteq> Absent
            then (case unlinkSync e of
                    None \<Rightarrow> (Absent, SaveOk)
                  | Some msg \<Rightarrow> (file, SaveFailed msg))
            else (file, SaveOk))
      else if data = Undefined
      then (file, SaveFailed ''The data argument must be of type string or Buffer'')
      else (case writeFileSync e of
              Written \<Rightarrow> (Present (Json (json_clone data)), SaveOk)
            | OpenThrows msg \<Rightarrow> (file, SaveFailed msg)
            | WriteThrows msg \<Rightarrow> (Present NotJson, SaveFailed msg)))"

text \<open>The try block of load-registration: what it returns, or the message it throws.\<close>

definition load_registration_try :: "file_state \<Rightarrow> string + jsval" where
  "load_registration_try file =
     (case file of
        Absent \<Rightarrow> Inr Null
      | Unreadable \<Rightarrow> Inl ''EACCES: permission denied, open''
      | Present NotJson \<Rightarrow> Inl ''Unexpected end of JSON input''
      | Present (Json v) \<Rightarrow> Inr v)"

definition load_registration :: "file_state \<Rightarrow> jsval" where
  "load_registration file =
     (case load_registration_try file of
        Inr v \<Rightarrow> v
      | Inl error \<Rightarrow> Null)"

text \<open>
  The states of the file that a stop of the process can leave behind while the handler
  saves a record: the old file before \<open>writeFileSync\<close> is entered, the file opened for
  writing (created or truncated) with nothing of the new text flushed, and the file as
  the call leaves it. The handler writes registration.json in place; it uses no temporary
  file and no rename.
\<close>

definition save_registration_crash_points ::
    "env \<Rightarrow> jsval \<Rightarrow> file_state \<Rightarrow> file_state list" where
  "save_registration_crash_points e data file =
     (if data = Null
      then [file, fst (save_registration e data file)]
      else if data = Undefined
      then [file]
      else (case writeFileSync e of
              OpenThrows msg \<Rightarrow> [file]
            | _ \<Rightarrow> [file, Present NotJson, fst (save_registration e data file)]))"

section \<open>The tunnel handlers\<close>

text \<open>\<open>{ success, url }\<close> or \<open>{ success: false, error }\<close>.\<close>

datatype tunnel_answer = TunnelOk string | TunnelFail string | TunnelFallback string

definition check_cloudflared :: "http_result \<Rightarrow> app_state \<Rightarrow> app_state \<times> tunnel_answer" where
  "check_cloudflared metrics s =
     (if url_truthy (detectedTunnelUrl s)
      then (case detectedTunnelUrl s of
              Some cached \<Rightarrow> (s, TunnelOk cached)
            | None \<Rightarrow> (s, TunnelFail ''Tunnel starting up...''))
      else (let url = getCloudflaredUrl metrics in
            if url_truthy url
            then (case url of
                    Some u \<Rightarrow> (s\<lparr>detectedTunnelUrl := Some u\<rparr>, TunnelOk u)
                  | None \<Rightarrow> (s, TunnelFail ''Tunnel starting up...''))
            else (s, TunnelFail ''Tunnel starting up...'')))"

definition get_tunnel_url ::
    "string \<Rightarrow> http_result \<Rightarrow> app_state \<Rightarrow> app_state \<times> tunnel_answer" where
  "get_tunnel_url ollama_url metrics s =
     (let url = getCloudflaredUrl metrics in
      if url_truthy url
      then (case url of
              Some u \<Rightarrow> (s\<lparr>detectedTunnelUrl := Some u\<rparr>, TunnelOk u)
            | None \<Rightarrow> (s, TunnelFallback ollama_url))
      else if url_truthy (detectedTunnelUrl s)
      then (case detectedTunnelUrl s of
              Some cached \<Rightarrow> (s, TunnelOk cached)
            | None \<Rightarrow> (s, TunnelFallback ollama_url))
      else (s, TunnelFallback ollama_url))"

text \<open>
  Of get-system-info, the state change and the \<open>url\<close> field of the answer, for a run
  in which the hardware queries before them do not throw.
\<close>

definition get_system_info :: "string \<Rightarrow> http_result \<Rightarrow> app_state \<Rightarrow> app_state \<times> string" where
  "get_system_info ollama_url metrics s =
     (let tunnelUrl = (case detectedTunnelUrl s of
                         Some cached \<Rightarrow> if cached \<noteq> [] then cached else ollama_url
                       | None \<Rightarrow> ollama_url);
          url = getCloudflaredUrl metrics
      in if url_truthy url
         then (case url of
                 Some u \<Rightarrow> (s\<lparr>detectedTunnelUrl := Some u\<rparr>, u)
               | None \<Rightarrow> (s, tunnelUrl))
         else (s, tunnelUrl))"

section \<open>The renderer\<close>

definition upper_char :: "char \<Rightarrow> char" where
  "upper_char c =
     (let n = (of_char c :: nat) in if 97 \<le> n \<and> n \<le> 122 then char_of (n - 32) else c)"

definition toUpperCase :: "string \<Rightarrow> string" where
  "toUpperCase s = map upper_char s"

definition is_space :: "char \<Rightarrow> bool" where
  "is_space c = (let n = (of_char c :: nat) in n = 32 \<or> (9 \<le> n \<and> n \<le> 13))"

definition trim :: "string \<Rightarrow> string" where
  "trim s = rev (dropWhile is_space (rev (dropWhile is_space s)))"

text \<open>What the user is shown when a renderer function ends.\<close>

datatype screen = ScreenSuccess | ScreenError jsval | AlertInvalidCode | NoAction

text \<open>The record submitLinkCode hands to saveRegistration.\<close>

definition registration_record :: "reg_data \<Rightarrow> string \<Rightarrow> string \<Rightarrow> jsval" where
  "registration_record d code timestamp =
     Obj [(''os'', js_or (Str (rd_os d)) (Str ''-'')),
          (''device'', js_or (Str (rd_device d)) (Str ''-'')),
          (''models'', js_or (Arr (rd_models d)) (Arr [])),
          (''url'', js_or (Str (rd_url d)) (Str ''-'')),
          (''nvidiaDriver'', js_or (Str (rd_nvidiaDriver d)) (Str ''-'')),
          (''cudaVersion'', js_or (Str (rd_cudaVersion d)) (Str ''-'')),
          (''userId'', js_or (rd_userId d) (Str code)),
          (''serverId'', rd_serverId d),
          (''username'', rd_username d),
          (''registered'', Bool True),
          (''timestamp'', Str timestamp)]"

text \<open>
  submitLinkCode: \<open>isSubmitting\<close> is the renderer's flag, \<open>input\<close> the text of the
  input field, \<open>timestamp\<close> the clock reading \<open>new Date().toISOString()\<close>.
\<close>

definition submitLinkCode ::
    "env \<Rightarrow> (nat \<Rightarrow> http_result) \<Rightarrow> string \<Rightarrow> bool \<Rightarrow> string \<Rightarrow> app_state
       \<Rightarrow> app_state \<times> payload list \<times> screen" where
  "submitLinkCode e metrics timestamp isSubmitting input s =
     (if isSubmitting then (s, [], NoAction)
      else
        let code = toUpperCase (trim input) in
        if code = [] \<or> length code \<noteq> 6 then (s, [], AlertInvalidCode)
        else
          (case register_server e metrics code s of
             (s', posts, RegSuccess d) \<Rightarrow>
               if rd_registered d
               then (let (file', saved) =
                           save_registration e (registration_record d code timestamp)
                             (registration_file s')
                     in (s'\<lparr>registration_file := file'\<rparr>, posts, ScreenSuccess))
               else (s', posts,
                     ScreenError (Str ''Registration failed - server did not confirm''))
           | (s', posts, RegFailure err) \<Rightarrow>
               (s', posts,
                ScreenError (js_or err (Str ''Registration failed - server did not confirm'')))))"

text \<open>The older registerWithCode, which saves a record without the \<open>registered\<close> field.\<close>

definition legacy_record :: "reg_data \<Rightarrow> jsval \<Rightarrow> jsval \<Rightarrow> jsval \<Rightarrow> string \<Rightarrow> jsval" where
  "legacy_record d os_info device_info model_info timestamp =
     Obj [(''os'', js_or (Str (rd_os d)) (js_or os_info (Str ''-''))),
          (''device'', js_or (Str (rd_device d)) (js_or device_info (Str ''-''))),
          (''model'', js_or Undefined (js_or model_info (Str ''-''))),
          (''url'', js_or (Str (rd_url d)) (Str ''-'')),
          (''nvidiaDriver'', js_or (Str (rd_nvidiaDriver d)) (Str ''-'')),
          (''cudaVersion'', js_or (Str (rd_cudaVersion d)) (Str ''-'')),
          (''userId'', rd_userId d),
          (''timestamp'', Str timestamp)]"

definition registerWithCode ::
    "env \<Rightarrow> (nat \<Rightarrow> http_result) \<Rightarrow> string \<Rightarrow> bool \<Rightarrow> string \<Rightarrow> jsval \<Rightarrow> jsval \<Rightarrow> jsval
       \<Rightarrow> app_state \<Rightarrow> app_state \<times> payload list \<times> screen" where
  "registerWithCode e metrics timestamp isSubmitting code os_info device_info model_info s =
     (if isSubmitting then (s, [], NoAction)
      else
        let linkCode = toUpperCase (trim code) in
        if linkCode = [] \<or> length linkCode \<noteq> 6 then (s, [], AlertInvalidCode)
        else
          (case register_server e metrics linkCode s of
             (s', posts, RegSuccess d) \<Rightarrow>
               (let (file', saved) =
                      save_registration e
                        (legacy_record d os_info device_info model_info timestamp)
                        (registration_file s')
                in (s'\<lparr>registration_file := file'\<rparr>, posts, ScreenSuccess))
           | (s', posts, RegFailure err) \<Rightarrow> (s', posts, ScreenError err)))"

text \<open>
  unlinkServer: \<open>await saveRegistration(null)\<close>; the handler's answer is not looked
  at.
\<close>

definition unlinkServer :: "env \<Rightarrow> app_state \<Rightarrow> app_state" where
  "unlinkServer e s =
     s\<lparr>registration_file := fst (save_registration e Null (registration_file s))\<rparr>"

text \<open>
  On DOMContentLoaded the renderer loads the registration and shows the success screen
  when \<open>registration && registration.registered\<close>.
\<close>

definition startup_shows_registered :: "jsval \<Rightarrow> bool" where
  "startup_shows_registered registration =
     (truthy registration \<and> truthy (getprop_opt registration ''registered''))"

section \<open>The application as a sequence of events\<close>

text \<open>
  Each event is one run of a function of the main process or of the renderer, with what
  the outside answers during that run.
\<close>

datatype event =
    AppReady env tunnel_env
  | MonitorTick env http_result tunnel_env
  | CheckCloudflared http_result
  | GetTunnelUrl env http_result
  | GetSystemInfo env http_result
  | RegisterServer env "nat \<Rightarrow> http_result" string
  | SubmitLinkCode env "nat \<Rightarrow> http_result" string bool string
  | RegisterWithCode env "nat \<Rightarrow> http_result" string bool string jsval jsval jsval
  | UnlinkServer env

fun step :: "app_state \<Rightarrow> event \<Rightarrow> app_state" where
  "step s (AppReady e t) = fst (startCloudflaredTunnel e t s)"
| "step s (MonitorTick e metrics t) = fst (monitorServices e metrics t s)"
| "step s (CheckCloudflared metrics) = fst (check_cloudflared metrics s)"
| "step s (GetTunnelUrl e metrics) = fst (get_tunnel_url (OLLAMA_SERVER_URL e) metrics s)"
| "step s (GetSystemInfo e metrics) = fst (get_system_info (OLLAMA_SERVER_URL e) metrics s)"
| "step s (RegisterServer e metrics linkCode) = fst (register_server e metrics linkCode s)"
| "step s (SubmitLinkCode e metrics timestamp isSubmitting input) =
     fst (submitLinkCode e metrics timestamp isSubmitting input s)"
| "step s (RegisterWithCode e metrics timestamp isSubmitting code os_info device_info model_info) =
     fst (registerWithCode e metrics timestamp isSubmitting code os_info device_info model_info s)"
| "step s (UnlinkServer e) = unlinkServer e s"

definition run :: "event list \<Rightarrow> app_state" where
  "run events = foldl step initial_state events"

section \<open>Invariants and sample inputs\<close>

text \<open>The cached tunnel URL is \<open>null\<close> or has the form of a quick-tunnel URL.\<close>

definition url_ok :: "string option \<Rightarrow> bool" where
  "url_ok cached = (case cached of None \<Rightarrow> True | Some u \<Rightarrow> is_tunnel_url u)"

text \<open>Sample collaborators, used to run the model on concrete inputs.\<close>

definition demo_sys :: system_info where
  "demo_sys =
     \<lparr>si_deviceId = ''box'', si_osInfo = ''{}'', si_hardware = ''{}'',
      si_platform = ''linux'', si_release = ''6.1'', si_nvidiaDriver = ''550.54'',
      si_cudaVersion = ''12.4'', si_gpuType = Str ''nvidia'', si_amdInfo = Null,
      si_macInfo = Null\<rparr>"

definition demo_env :: "http_result \<Rightarrow> env" where
  "demo_env answer =
     \<lparr>collectSystemInfo = Inr demo_sys,
      fetchAvailableModels = [Str ''llama3''],
      post_register = (\<lambda>p. answer),
      OLLAMA_SERVER_URL = ''http://localhost:11434'',
      unlinkSync = None,
      writeFileSync = Written\<rparr>"

definition demo_tunnel :: tunnel_env where
  "demo_tunnel =
     \<lparr>version_check_ok = True, spawn_ok = True,
      arrivals = (\<lambda>k. if k = 1
         then [(Stdout, ''INF Requesting new quick Tunnel''),
               (Stderr, ''INF |  https://first-one.trycloudflare.com  |''),
               (Stdout, ''retry https://second-two.trycloudflare.com'')]
         else [])\<rparr>"

text \<open>
  The invariant of a Registration Record as the specification words it:
  \<open>registered == true\<close> implies that the link identifier and the public URL are
  non-empty.
\<close>

definition record_invariant :: "jsval \<Rightarrow> bool" where
  "record_invariant r =
     (getprop_opt r ''registered'' = Bool True \<longrightarrow>
        truthy (getprop_opt r ''serverId'') \<and> truthy (getprop_opt r ''url''))"

text \<open>
  What the code maintains of it: a stored record has a non-empty \<open>url\<close>. A file that
  a failed write left truncated holds no record.
\<close>

fun stored_url_nonempty :: "file_state \<Rightarrow> bool" where
  "stored_url_nonempty Absent = True"
| "stored_url_nonempty (Present (Json r)) =
     (case getprop_opt r ''url'' of Str u \<Rightarrow> u \<noteq> [] | _ \<Rightarrow> False)"
| "stored_url_nonempty (Present NotJson) = True"
| "stored_url_nonempty Unreadable = False"

text \<open>
  Atomicity of a save as the specification words it: wherever the process stops, the
  next load sees the record stored before or the record being saved.
\<close>

definition crash_atomic :: "env \<Rightarrow> jsval \<Rightarrow> file_state \<Rightarrow> bool" where
  "crash_atomic e data file =
     list_all
       (\<lambda>cp. load_registration cp = load_registration file
             \<or> load_registration cp = load_registration (fst (save_registration e data file)))
       (save_registration_crash_points e data file)"

text \<open>More sample inputs: a metrics endpoint that is down, answers of the directory
  service, stored records.\<close>

definition no_metrics :: "nat \<Rightarrow> http_result" where
  "no_metrics k = HttpError ''connect ECONNREFUSED 127.0.0.1:49312'' Undefined"

definition rejecting_env :: env where
  "rejecting_env = demo_env (Response (Obj [(''code'', Str ''LINK_CODE_INVALID''), (''userId'', Str [])]))"

definition accepting_env :: env where
  "accepting_env =
     demo_env (Response (Obj [(''code'', Str ''SERVER_REGISTER_SUCCESS''),
                              (''userId'', Str ''u-7''),
                              (''serverId'', Str ''Srv-42X''),
                              (''username'', Str ''ann'')]))"

definition success_without_serverId :: env where
  "success_without_serverId =
     demo_env (Response (Obj [(''code'', Str ''SERVER_REGISTER_SUCCESS'')]))"

definition demo_registration :: jsval where
  "demo_registration =
     Obj [(''url'', Str ''https://first-one.trycloudflare.com''),
          (''userId'', Str ''ABC123''),
          (''serverId'', Str ''Srv-42X''),
          (''username'', Str ''ann''),
          (''registered'', Bool True)]"

definition moved_registration :: jsval where
  "moved_registration =
     Obj [(''url'', Str ''https://second-two.trycloudflare.com''),
          (''userId'', Str ''ABC123''),
          (''serverId'', Str ''Srv-42X''),
          (''username'', Str ''ann''),
          (''registered'', Bool True)]"

definition locked_env :: env where
  "locked_env =
     (demo_env (Response Null))\<lparr>unlinkSync := Some ''EPERM: operation not permitted, unlink''\<rparr>"

definition registered_state :: app_state where
  "registered_state = initial_state\<lparr>registration_file := Present (Json demo_registration)\<rparr>"

definition demo_payload :: payload where
  "demo_payload =
     \<lparr>link_code = ''srv-42x'', deviceId = ''box'', osInfo = ''{}'', hardware = ''{}'',
      url = ''https://second-two.trycloudflare.com'', models = [Str ''llama3'']\<rparr>"

definition demo_saved_record :: jsval where
  "demo_saved_record =
     Obj [(''os'', Str ''linux 6.1''), (''device'', Str ''box''),
          (''models'', Arr [Str ''llama3'']),
          (''url'', Str ''http://localhost:11434''), (''nvidiaDriver'', Str ''550.54''),
          (''cudaVersion'', Str ''12.4''), (''userId'', Str ''ABC123''),
          (''serverId'', Undefined), (''username'', Undefined), (''registered'', Bool True),
          (''timestamp'', Str ''2024-05-01T10:00:00.000Z'')]"

section \<open>Facts about the pattern\<close>

lemma backtrack_Some:
  "backtrack k s n = Some r \<Longrightarrow>
     \<exists>j m. 0 < j \<and> j \<le> n \<and> k (drop j s) = Some m \<and> r = take j s @ m"
proof (induction n)
  case 0
  then show ?case by simp
next
  case (Suc n)
  show ?case
  proof (cases "k (drop (Suc n) s)")
    case None
    with Suc.prems have "backtrack k s n = Some r" by simp
    from Suc.IH [OF this] obtain j m where
      "0 < j" "j \<le> n" "k (drop j s) = Some m" "r = take j s @ m" by blast
    then have "0 < j \<and> j \<le> Suc n \<and> k (drop j s) = Some m \<and> r = take j s @ m" by simp
    then show ?thesis by blast
  next
    case (Some m)
    with Suc.prems have "r = take (Suc n) s @ m" by simp
    with Some show ?thesis by blast
  qed
qed

lemma take_takeWhile_all:
  "j \<le> length (takeWhile P s) \<Longrightarrow> \<forall>c \<in> set (take j s). P c"
proof (induction s arbitrary: j)
  case Nil
  then show ?case by simp
next
  case (Cons a s)
  then show ?case by (cases j) (auto split: if_splits)
qed

lemma match_items_Lit:
  "match_items (Lit l # rs) s =
     (if prefix l s then map_option (\<lambda>m. l @ m) (match_items rs (drop (length l) s)) else None)"
  by simp

lemma match_items_Plus:
  "match_items (Plus P # rs) s = backtrack (match_items rs) s (length (takeWhile P s))"
  by simp

lemma match_lit_plus_lit:
  assumes "match_items [Lit a, Plus P, Lit b] s = Some u"
  shows "\<exists>label. u = a @ label @ b \<and> label \<noteq> [] \<and> (\<forall>c \<in> set label. P c)"
proof -
  let ?t = "drop (length a) s"
  from assms obtain r where r: "match_items [Plus P, Lit b] ?t = Some r" and u: "u = a @ r"
    unfolding match_items_Lit [of a] by (auto split: if_splits)
  from r have "backtrack (match_items [Lit b]) ?t (length (takeWhile P ?t)) = Some r"
    unfolding match_items_Plus .
  from backtrack_Some [OF this] obtain j m where j: "0 < j" "j \<le> length (takeWhile P ?t)"
    and m: "match_items [Lit b] (drop j ?t) = Some m" and rr: "r = take j ?t @ m"
    by blast
  from m have m': "m = b" unfolding match_items_Lit by (auto split: if_splits)
  have "\<forall>c \<in> set (take j ?t). P c" using j(2) by (rule take_takeWhile_all)
  moreover have "take j ?t \<noteq> []" using j by auto
  moreover have "u = a @ take j ?t @ b" using u rr m' by simp
  ultimately show ?thesis by blast
qed

lemma match_tunnel_rx_form:
  "match_items tunnel_rx s = Some u \<Longrightarrow> is_tunnel_url u"
  unfolding tunnel_rx_def is_tunnel_url_def by (rule match_lit_plus_lit)

lemma rx_search_tunnel_form:
  "rx_search tunnel_rx s = Some u \<Longrightarrow> is_tunnel_url u"
proof (induction s)
  case Nil
  then show ?case by (simp add: match_tunnel_rx_form)
next
  case (Cons c cs)
  then show ?case by (auto split: option.splits simp: match_tunnel_rx_form)
qed

lemma match_tunnel_url_form:
  "match_tunnel_url s = Some u \<Longrightarrow> is_tunnel_url u"
  unfolding match_tunnel_url_def by (rule rx_search_tunnel_form)

lemma match_tunnel_url_nonempty:
  "match_tunnel_url s = Some u \<Longrightarrow> u \<noteq> []"
  by (auto dest: match_tunnel_url_form simp: is_tunnel_url_def)

text \<open>Conversely, the matcher finds a URL of that form wherever it stands in a text.\<close>

lemma backtrack_hit:
  "0 < n \<Longrightarrow> k (drop n s) = Some m \<Longrightarrow> backtrack k s n = Some (take n s @ m)"
  by (cases n) simp_all

lemma dot_not_label: "\<not> label_char CHR ''.''"
  by (simp add: label_char_def)

lemma match_items_tunnel_here:
  assumes "label \<noteq> []" and "\<forall>c \<in> set label. label_char c"
  shows "match_items tunnel_rx (''https://'' @ label @ ''.trycloudflare.com'' @ post) =
           Some (''https://'' @ label @ ''.trycloudflare.com'')"
proof -
  let ?t = "label @ ''.trycloudflare.com'' @ post"
  have tw: "takeWhile label_char ?t = label"
    using assms(2) dot_not_label by (simp add: takeWhile_append2)
  have tail: "match_items [Lit ''.trycloudflare.com''] (drop (length label) ?t) =
                Some ''.trycloudflare.com''"
    by simp
  have "backtrack (match_items [Lit ''.trycloudflare.com'']) ?t (length label) =
          Some (take (length label) ?t @ ''.trycloudflare.com'')"
    using assms(1) tail by (intro backtrack_hit) simp_all
  then have "match_items [Plus label_char, Lit ''.trycloudflare.com''] ?t =
          Some (label @ ''.trycloudflare.com'')"
    unfolding match_items_Plus tw by simp
  then show ?thesis
    unfolding tunnel_rx_def match_items_Lit [of "''https://''"] by simp
qed

lemma rx_search_finds:
  "match_items p s = Some m \<Longrightarrow> rx_search p (pre @ s) \<noteq> None"
proof (induction pre)
  case Nil
  then show ?case by (cases s) simp_all
next
  case (Cons c pre)
  then show ?case by (simp split: option.splits)
qed

lemma match_tunnel_url_finds:
  "is_tunnel_url u \<Longrightarrow> match_tunnel_url (pre @ u @ post) \<noteq> None"
proof -
  assume "is_tunnel_url u"
  then obtain label where u: "u = ''https://'' @ label @ ''.trycloudflare.com''"
    and l: "label \<noteq> []" "\<forall>c \<in> set label. label_char c"
    unfolding is_tunnel_url_def by blast
  have "match_items tunnel_rx (u @ post) = Some u"
    using match_items_tunnel_here [OF l, of post] u by simp
  then show ?thesis unfolding match_tunnel_url_def by (rule rx_search_finds)
qed

section \<open>The cached tunnel URL\<close>

lemma url_ok_simps [simp]: "url_ok None" "url_ok (Some u) = is_tunnel_url u"
  by (simp_all add: url_ok_def)

lemma first_tunnel_line_form:
  "first_tunnel_line ls = Some u \<Longrightarrow> is_tunnel_url u"
  by (induction ls) (auto split: if_splits option.splits dest: match_tunnel_url_form)

lemma getCloudflaredUrl_form:
  "getCloudflaredUrl m = Some u \<Longrightarrow> is_tunnel_url u"
  by (auto simp: getCloudflaredUrl_def split: http_result.splits jsval.splits
           dest: first_tunnel_line_form)

lemma on_data_ok: "url_ok (fst st) \<Longrightarrow> url_ok (fst (on_data st ch))"
  by (cases "(st, ch)" rule: on_data.cases)
     (auto split: option.splits dest: match_tunnel_url_form)

lemma foldl_on_data_ok: "url_ok (fst st) \<Longrightarrow> url_ok (fst (foldl on_data st cs))"
  by (induction cs arbitrary: st) (auto simp: on_data_ok)

lemma wait_for_url_step:
  "\<not> snd st \<Longrightarrow> n < 30 \<Longrightarrow>
     wait_for_url arr st n = wait_for_url arr (foldl on_data st (arr n)) (n + 1)"
  by (subst wait_for_url.simps) simp

lemma wait_for_url_stop:
  "snd st \<or> \<not> n < 30 \<Longrightarrow> wait_for_url arr st n = st"
  by (subst wait_for_url.simps) auto

lemma wait_for_url_ok:
  "url_ok (fst st) \<Longrightarrow> url_ok (fst (wait_for_url arr st n))"
proof (induction arr st n rule: wait_for_url.induct)
  case (1 arr st n)
  show ?case
  proof (cases "\<not> snd st \<and> n < 30")
    case True
    then have "wait_for_url arr st n = wait_for_url arr (foldl on_data st (arr n)) (n + 1)"
      by (simp add: wait_for_url_step)
    moreover have "url_ok (fst (foldl on_data st (arr n)))"
      using "1.prems" by (rule foldl_on_data_ok)
    ultimately show ?thesis using "1.IH" True by simp
  next
    case False
    then have "wait_for_url arr st n = st" by (simp add: wait_for_url_stop)
    with "1.prems" show ?thesis by simp
  qed
qed

lemma wait_for_tunnel_found:
  "n < maxAttempts \<Longrightarrow> url_truthy (getCloudflaredUrl (m n)) \<Longrightarrow>
     wait_for_tunnel m n = getCloudflaredUrl (m n)"
  by (subst wait_for_tunnel.simps) (simp add: Let_def)

lemma wait_for_tunnel_next:
  "n < maxAttempts \<Longrightarrow> \<not> url_truthy (getCloudflaredUrl (m n)) \<Longrightarrow>
     wait_for_tunnel m n = wait_for_tunnel m (n + 1)"
  by (subst wait_for_tunnel.simps) (simp add: Let_def)

lemma wait_for_tunnel_end:
  "\<not> n < maxAttempts \<Longrightarrow> wait_for_tunnel m n = None"
  by (subst wait_for_tunnel.simps) simp

lemma wait_for_tunnel_form:
  "wait_for_tunnel m n = Some u \<Longrightarrow> is_tunnel_url u"
proof (induction m n rule: wait_for_tunnel.induct)
  case (1 m n)
  show ?case
  proof (cases "n < maxAttempts")
    case True
    note lt = this
    show ?thesis
    proof (cases "url_truthy (getCloudflaredUrl (m n))")
      case True
      with lt "1.prems" have "getCloudflaredUrl (m n) = Some u"
        by (simp add: wait_for_tunnel_found)
      then show ?thesis by (rule getCloudflaredUrl_form)
    next
      case False
      with lt "1.prems" have "wait_for_tunnel m (n + 1) = Some u"
        by (simp add: wait_for_tunnel_next)
      with "1.IH" lt False show ?thesis by simp
    qed
  next
    case False
    with "1.prems" show ?thesis by (simp add: wait_for_tunnel_end)
  qed
qed

lemma startCloudflaredTunnel_ok:
  "url_ok (detectedTunnelUrl s) \<Longrightarrow> url_ok (detectedTunnelUrl (fst (startCloudflaredTunnel e t s)))"
proof -
  assume ok: "url_ok (detectedTunnelUrl s)"
  obtain tu fo where w: "wait_for_url (arrivals t) (None, False) 0 = (tu, fo)"
    by (cases "wait_for_url (arrivals t) (None, False) 0")
  have "url_ok (fst (wait_for_url (arrivals t) (None, False) 0))"
    by (rule wait_for_url_ok) simp
  with w have tu: "url_ok tu" by simp
  show ?thesis using ok tu w
    by (auto simp: startCloudflaredTunnel_def Let_def split: option.splits prod.splits)
qed

lemma monitorServices_ok:
  "url_ok (detectedTunnelUrl s) \<Longrightarrow> url_ok (detectedTunnelUrl (fst (monitorServices e m t s)))"
  using startCloudflaredTunnel_ok [of s e t]
  by (auto simp: monitorServices_def Let_def split: option.splits prod.splits
           dest: getCloudflaredUrl_form)

lemma check_cloudflared_ok:
  "url_ok (detectedTunnelUrl s) \<Longrightarrow> url_ok (detectedTunnelUrl (fst (check_cloudflared m s)))"
  by (auto simp: check_cloudflared_def Let_def split: option.splits dest: getCloudflaredUrl_form)

lemma get_tunnel_url_ok:
  "url_ok (detectedTunnelUrl s) \<Longrightarrow> url_ok (detectedTunnelUrl (fst (get_tunnel_url a m s)))"
  by (auto simp: get_tunnel_url_def Let_def split: option.splits dest: getCloudflaredUrl_form)

lemma get_system_info_ok:
  "url_ok (detectedTunnelUrl s) \<Longrightarrow> url_ok (detectedTunnelUrl (fst (get_system_info a m s)))"
  by (auto simp: get_system_info_def Let_def split: option.splits dest: getCloudflaredUrl_form)

lemma register_server_cache:
  "detectedTunnelUrl (fst (register_server e m c s)) = detectedTunnelUrl s \<or>
   (\<exists>u. wait_for_tunnel m 0 = Some u \<and> detectedTunnelUrl (fst (register_server e m c s)) = Some u)"
  by (auto simp: register_server_def Let_def
           split: sum.splits option.splits http_result.splits)

lemma register_server_file:
  "registration_file (fst (register_server e m c s)) = registration_file s"
  by (auto simp: register_server_def Let_def
           split: sum.splits option.splits http_result.splits)

lemma register_server_ok:
  "url_ok (detectedTunnelUrl s) \<Longrightarrow> url_ok (detectedTunnelUrl (fst (register_server e m c s)))"
  using register_server_cache [of e m c s] by (auto dest: wait_for_tunnel_form)


lemma submitLinkCode_cache:
  "detectedTunnelUrl (fst (submitLinkCode e m ts b input s)) = detectedTunnelUrl s \<or>
   detectedTunnelUrl (fst (submitLinkCode e m ts b input s)) =
     detectedTunnelUrl (fst (register_server e m (toUpperCase (trim input)) s))"
  by (auto simp: submitLinkCode_def Let_def split: prod.splits register_result.splits)

lemma submitLinkCode_ok:
  "url_ok (detectedTunnelUrl s) \<Longrightarrow>
     url_ok (detectedTunnelUrl (fst (submitLinkCode e m ts b input s)))"
  using submitLinkCode_cache [of e m ts b input s]
        register_server_ok [of s e m "toUpperCase (trim input)"]
  by auto

lemma registerWithCode_cache:
  "detectedTunnelUrl (fst (registerWithCode e m ts b c x y z s)) = detectedTunnelUrl s \<or>
   detectedTunnelUrl (fst (registerWithCode e m ts b c x y z s)) =
     detectedTunnelUrl (fst (register_server e m (toUpperCase (trim c)) s))"
  by (auto simp: registerWithCode_def Let_def split: prod.splits register_result.splits)

lemma registerWithCode_ok:
  "url_ok (detectedTunnelUrl s) \<Longrightarrow>
     url_ok (detectedTunnelUrl (fst (registerWithCode e m ts b c x y z s)))"
  using registerWithCode_cache [of e m ts b c x y z s]
        register_server_ok [of s e m "toUpperCase (trim c)"]
  by auto

lemma step_ok:
  "url_ok (detectedTunnelUrl s) \<Longrightarrow> url_ok (detectedTunnelUrl (step s ev))"
  by (cases ev)
     (simp_all add: startCloudflaredTunnel_ok monitorServices_ok check_cloudflared_ok
        get_tunnel_url_ok get_system_info_ok register_server_ok submitLinkCode_ok
        registerWithCode_ok unlinkServer_def)

lemma foldl_step_ok:
  "url_ok (detectedTunnelUrl s) \<Longrightarrow> url_ok (detectedTunnelUrl (foldl step s evs))"
  by (induction evs arbitrary: s) (simp_all add: step_ok)

lemma run_ok: "url_ok (detectedTunnelUrl (run evs))"
  unfolding run_def by (rule foldl_step_ok) (simp add: initial_state_def)

lemma demo_tunnel_flags [simp]: "version_check_ok demo_tunnel" "spawn_ok demo_tunnel"
  by (simp_all add: demo_tunnel_def)

lemma demo_wait:
  "wait_for_url (arrivals demo_tunnel) (None, False) 0 =
     (Some ''https://first-one.trycloudflare.com'', True)"
  by (simp add: demo_tunnel_def wait_for_url.simps match_tunnel_url_def tunnel_rx_def
        label_char_def)

lemma demo_run:
  "detectedTunnelUrl (run [AppReady (demo_env (Response Null)) demo_tunnel]) =
     Some ''https://first-one.trycloudflare.com''"
  by (simp add: run_def initial_state_def startCloudflaredTunnel_def demo_wait
        updateServerUrlIfRegistered_def)

text \<open>
  C10: after any sequence of runs of startCloudflaredTunnel, monitorServices and the
  check-cloudflared, get-tunnel-url, get-system-info and register-server handlers (and of
  the renderer functions that call them), starting from the empty cache, the cached
  tunnel URL is \<open>null\<close> or \<open>https://<label>.trycloudflare.com\<close> with a non-empty
  label of lowercase letters, digits and hyphens; so is every URL that check-cloudflared
  or get-tunnel-url answers with \<open>success: true\<close>.
\<close>

theorem cached_tunnel_url_matches_pattern:
  assumes "detectedTunnelUrl (run events) = Some u
           \<or> snd (check_cloudflared metrics (run events)) = TunnelOk u
           \<or> snd (get_tunnel_url ollama_url metrics (run events)) = TunnelOk u"
  shows "is_tunnel_url u"
proof -
  have inv: "url_ok (detectedTunnelUrl (run events))" by (rule run_ok)
  from assms consider
      (cache) "detectedTunnelUrl (run events) = Some u"
    | (check) "snd (check_cloudflared metrics (run events)) = TunnelOk u"
    | (get) "snd (get_tunnel_url ollama_url metrics (run events)) = TunnelOk u"
    by blast
  then show ?thesis
  proof cases
    case cache
    with inv show ?thesis by simp
  next
    case check
    with inv show ?thesis
      by (auto simp: check_cloudflared_def Let_def split: option.splits if_splits
               dest: getCloudflaredUrl_form)
  next
    case get
    with inv show ?thesis
      by (auto simp: get_tunnel_url_def Let_def split: option.splits if_splits
               dest: getCloudflaredUrl_form)
  qed
qed

theorem cached_tunnel_url_matches_pattern_witness:
  "detectedTunnelUrl (run [AppReady (demo_env (Response Null)) demo_tunnel]) =
     Some ''https://first-one.trycloudflare.com''
   \<and> is_tunnel_url ''https://first-one.trycloudflare.com''"
  using cached_tunnel_url_matches_pattern
          [of "[AppReady (demo_env (Response Null)) demo_tunnel]"
              "''https://first-one.trycloudflare.com''"]
        demo_run
  by simp

section \<open>First match wins\<close>

lemma on_data_found: "on_data (tu, True) ch = (tu, True)"
  by (cases ch; cases "fst ch") (auto split: option.splits)

lemma foldl_on_data_found: "foldl on_data (tu, True) cs = (tu, True)"
  by (induction cs) (simp_all add: on_data_found)

lemma on_data_no_match: "match_tunnel_url (snd ch) = None \<Longrightarrow> on_data st ch = st"
  by (cases "(st, ch)" rule: on_data.cases) auto

lemma foldl_on_data_no_match:
  "\<forall>x \<in> set cs. match_tunnel_url (snd x) = None \<Longrightarrow> foldl on_data st cs = st"
  by (induction cs arbitrary: st) (simp_all add: on_data_no_match)

lemma on_data_first_match:
  "match_tunnel_url (snd ch) = Some u \<Longrightarrow> on_data (tu, False) ch = (Some u, True)"
  by (cases "((tu, False), ch)" rule: on_data.cases) auto

lemma foldl_on_data_first_match:
  assumes "\<forall>x \<in> set pre. match_tunnel_url (snd x) = None"
    and "match_tunnel_url (snd c) = Some u"
  shows "foldl on_data (None, False) (pre @ c # post) = (Some u, True)"
  using assms
  by (simp add: foldl_on_data_no_match on_data_first_match foldl_on_data_found)

lemma wait_for_url_window:
  "wait_for_url arr st n = foldl on_data st (concat (map arr [n..<30]))"
proof (induction arr st n rule: wait_for_url.induct)
  case (1 arr st n)
  show ?case
  proof (cases "\<not> snd st \<and> n < 30")
    case True
    then have "wait_for_url arr st n = wait_for_url arr (foldl on_data st (arr n)) (n + 1)"
      by (simp add: wait_for_url_step)
    also have "\<dots> = foldl on_data (foldl on_data st (arr n)) (concat (map arr [n + 1..<30]))"
      using "1.IH" True by simp
    also have "\<dots> = foldl on_data st (concat (map arr [n..<30]))"
      using True by (simp add: upt_conv_Cons)
    finally show ?thesis .
  next
    case False
    then have stop: "wait_for_url arr st n = st" by (simp add: wait_for_url_stop)
    show ?thesis
    proof (cases "snd st")
      case True
      then obtain tu where "st = (tu, True)" by (cases st) auto
      with stop show ?thesis by (simp add: foldl_on_data_found)
    next
      case False
      with \<open>\<not> (\<not> snd st \<and> n < 30)\<close> have "\<not> n < 30" by simp
      with stop show ?thesis by simp
    qed
  qed
qed

lemma demo_window: "concat (map (arrivals demo_tunnel) [0..<30]) =
   [(Stdout, ''INF Requesting new quick Tunnel'')] @
               (Stderr, ''INF |  https://first-one.trycloudflare.com  |'') #
               [(Stdout, ''retry https://second-two.trycloudflare.com'')]"
  by (simp add: demo_tunnel_def upt_rec)

lemma demo_chunks:
  "match_tunnel_url ''INF Requesting new quick Tunnel'' = None"
  "match_tunnel_url ''INF |  https://first-one.trycloudflare.com  |'' = Some ''https://first-one.trycloudflare.com''"
  "match_tunnel_url ''retry https://second-two.trycloudflare.com'' = Some ''https://second-two.trycloudflare.com''"
  by (simp_all add: match_tunnel_url_def tunnel_rx_def label_char_def)

text \<open>
  C9: when the chunks that arrive on stdout and stderr during the wait window of
  startCloudflaredTunnel contain a first chunk with a URL of the public-hostname
  pattern, the call adopts the URL matched in that chunk, whatever the later chunks
  contain: later matches are ignored.
\<close>

theorem first_match_wins:
  assumes "version_check_ok t" and "spawn_ok t"
    and "concat (map (arrivals t) [0..<30]) = pre @ c # post"
    and "\<forall>x \<in> set pre. match_tunnel_url (snd x) = None"
    and "match_tunnel_url (snd c) = Some u"
  shows "snd (snd (startCloudflaredTunnel e t s)) = Some u
         \<and> detectedTunnelUrl (fst (startCloudflaredTunnel e t s)) = Some u"
proof -
  have "foldl on_data (None, False) (pre @ c # post) = (Some u, True)"
    using assms(4,5) by (rule foldl_on_data_first_match)
  then have "wait_for_url (arrivals t) (None, False) 0 = (Some u, True)"
    by (simp only: wait_for_url_window assms(3))
  moreover have "u \<noteq> []" using assms(5) by (rule match_tunnel_url_nonempty)
  ultimately show ?thesis using assms(1,2)
    by (simp add: startCloudflaredTunnel_def Let_def split: prod.splits)
qed

theorem first_match_wins_witness:
  "snd (snd (startCloudflaredTunnel (demo_env (Response Null)) demo_tunnel initial_state)) =
     Some ''https://first-one.trycloudflare.com''
   \<and> detectedTunnelUrl
        (fst (startCloudflaredTunnel (demo_env (Response Null)) demo_tunnel initial_state)) =
       Some ''https://first-one.trycloudflare.com''"
  by (rule first_match_wins
        [where pre = "[(Stdout, ''INF Requesting new quick Tunnel'')]"
           and c = "(Stderr, ''INF |  https://first-one.trycloudflare.com  |'')"
           and post = "[(Stdout, ''retry https://second-two.trycloudflare.com'')]"])
     (simp_all add: demo_window demo_chunks)

section \<open>Answers of the register-server handler\<close>

lemma truthy_js_or_Str: "fallback \<noteq> [] \<Longrightarrow> truthy (js_or a (Str fallback))"
  by (simp add: js_or_def)

lemma truthy_js_or_right: "truthy b \<Longrightarrow> truthy (js_or a b)"
  by (simp add: js_or_def)

lemma truthy_remote_error: "truthy (remote_error err)"
  by (cases err) (simp add: remote_error_def truthy_js_or_right truthy_js_or_Str)

lemma register_server_failure_truthy:
  "snd (snd (register_server e m c s)) = RegFailure err \<Longrightarrow> truthy err"
  by (auto simp: register_server_def Let_def truthy_remote_error truthy_js_or_Str
           split: sum.splits option.splits http_result.splits prod.splits if_splits)

lemma register_server_unconfirmed:
  assumes "\<And>p. post_register e p = Response body"
    and "getprop body ''code'' \<noteq> Inr (Str ''SERVER_REGISTER_SUCCESS'')"
    and "\<not> truthy (getprop_opt body ''userId'')"
  shows "\<exists>err. snd (snd (register_server e m c s)) = RegFailure err"
  using assms
  by (auto simp: register_server_def Let_def
           split: sum.splits option.splits http_result.splits prod.splits)

lemma register_server_unconfirmed_message:
  assumes "\<And>p. post_register e p = Response body"
    and "getprop body ''code'' = Inr code"
    and "code \<noteq> Str ''SERVER_REGISTER_SUCCESS''"
    and "\<not> truthy (getprop_opt body ''userId'')"
    and "collectSystemInfo e = Inr sys"
  shows "snd (snd (register_server e m c s)) =
           RegFailure (Str ''Server did not confirm registration'')"
  using assms
  by (auto simp: register_server_def Let_def remote_error_def js_or_def getprop_opt_def
           cannot_read_def
           split: sum.splits option.splits http_result.splits prod.splits)

lemma submitLinkCode_failure:
  assumes "snd (snd (register_server e m (toUpperCase (trim input)) s)) = RegFailure err"
  shows "registration_file (fst (submitLinkCode e m ts b input s)) = registration_file s
         \<and> snd (snd (submitLinkCode e m ts b input s)) \<noteq> ScreenSuccess"
  using assms register_server_file [of e m "toUpperCase (trim input)" s]
  by (auto simp: submitLinkCode_def Let_def split: prod.splits register_result.splits)

text \<open>
  C1: when the directory service answers the registration call with a body whose
  \<open>code\<close> is not SERVER_REGISTER_SUCCESS and whose \<open>userId\<close> is missing or empty,
  the register-server handler answers \<open>success: false\<close> with a non-empty error (the
  message "Server did not confirm registration" when the body has properties at all), the
  renderer does not show the success screen, and registration.json is left as it was.
\<close>

theorem unconfirmed_response_is_failure:
  assumes "\<And>p. post_register e p = Response body"
    and "getprop body ''code'' \<noteq> Inr (Str ''SERVER_REGISTER_SUCCESS'')"
    and "\<not> truthy (getprop_opt body ''userId'')"
  shows "(\<exists>err. snd (snd (register_server e metrics linkCode s)) = RegFailure err
            \<and> truthy err
            \<and> (\<forall>sys code. collectSystemInfo e = Inr sys \<and> getprop body ''code'' = Inr code
                  \<longrightarrow> err = Str ''Server did not confirm registration''))
       \<and> registration_file (fst (register_server e metrics linkCode s)) = registration_file s
       \<and> snd (snd (submitLinkCode e metrics timestamp isSubmitting input s)) \<noteq> ScreenSuccess
       \<and> registration_file (fst (submitLinkCode e metrics timestamp isSubmitting input s)) =
           registration_file s"
proof -
  from register_server_unconfirmed [OF assms] obtain err where
    r: "snd (snd (register_server e metrics linkCode s)) = RegFailure err" by blast
  then have t: "truthy err" by (rule register_server_failure_truthy)
  have m: "err = Str ''Server did not confirm registration''"
    if "collectSystemInfo e = Inr sys" and "getprop body ''code'' = Inr code" for sys code
  proof -
    from that(2) assms(2) have "code \<noteq> Str ''SERVER_REGISTER_SUCCESS''" by auto
    from register_server_unconfirmed_message [OF assms(1) that(2) this assms(3) that(1)] r
    show ?thesis by simp
  qed
  from register_server_unconfirmed [OF assms] obtain err' where
    "snd (snd (register_server e metrics (toUpperCase (trim input)) s)) = RegFailure err'"
    by blast
  note sub = submitLinkCode_failure [OF this]
  from r t m have "\<exists>err. snd (snd (register_server e metrics linkCode s)) = RegFailure err
            \<and> truthy err
            \<and> (\<forall>sys code. collectSystemInfo e = Inr sys \<and> getprop body ''code'' = Inr code
                  \<longrightarrow> err = Str ''Server did not confirm registration'')"
    by blast
  with sub show ?thesis by (simp add: register_server_file)
qed

theorem unconfirmed_response_is_failure_witness:
  "(\<exists>err. snd (snd (register_server rejecting_env no_metrics ''ABC123'' initial_state)) =
            RegFailure err
          \<and> truthy err
          \<and> (\<forall>sys code. collectSystemInfo rejecting_env = Inr sys
                \<and> getprop (Obj [(''code'', Str ''LINK_CODE_INVALID''), (''userId'', Str [])])
                      ''code'' = Inr code
                \<longrightarrow> err = Str ''Server did not confirm registration''))
   \<and> registration_file (fst (register_server rejecting_env no_metrics ''ABC123'' initial_state)) =
       registration_file initial_state
   \<and> snd (snd (submitLinkCode rejecting_env no_metrics ''2024-05-01T10:00:00.000Z'' False
                 '' abc123'' initial_state)) \<noteq> ScreenSuccess
   \<and> registration_file
        (fst (submitLinkCode rejecting_env no_metrics ''2024-05-01T10:00:00.000Z'' False
                '' abc123'' initial_state)) =
       registration_file initial_state"
  by (rule unconfirmed_response_is_failure
        [where body = "Obj [(''code'', Str ''LINK_CODE_INVALID''), (''userId'', Str [])]"])
     (simp_all add: rejecting_env_def demo_env_def getprop_opt_def)

section \<open>URL drift\<close>

lemma getprop_opt_defined_Obj:
  "getprop_opt v k \<noteq> Undefined \<Longrightarrow> \<exists>fs. v = Obj fs"
  by (cases v) (simp_all add: getprop_opt_def)

lemma truthy_prop_truthy:
  "truthy (getprop_opt v k) \<Longrightarrow> truthy v"
  by (cases v) (simp_all add: getprop_opt_def)

text \<open>
  C2: for a stored record with \<open>registered == true\<close> and a non-empty serverId whose
  \<open>url\<close> is string-equal to the freshly observed tunnel URL,
  updateServerUrlIfRegistered posts nothing and leaves the file unchanged, and so does a
  second invocation right after it.
\<close>

theorem unchanged_url_skips_update:
  assumes "file = Present (Json registration)"
    and "getprop_opt registration ''registered'' = Bool True"
    and "getprop_opt registration ''serverId'' = Str serverId"
    and "serverId \<noteq> []"
    and "getprop_opt registration ''url'' = Str newUrl"
  shows "updateServerUrlIfRegistered e newUrl file = (file, [], None)
       \<and> updateServerUrlIfRegistered e'
            newUrl (fst (updateServerUrlIfRegistered e newUrl file)) = (file, [], None)"
proof -
  have "truthy registration" using assms(2) truthy_prop_truthy [of registration "''registered''"]
    by simp
  then have "updateServerUrlIfRegistered e1 newUrl file = (file, [], None)" for e1
    using assms by (simp add: updateServerUrlIfRegistered_def)
  then show ?thesis by simp
qed

theorem unchanged_url_skips_update_witness:
  "updateServerUrlIfRegistered (demo_env (Response Null)) ''https://first-one.trycloudflare.com''
     (Present (Json demo_registration)) = (Present (Json demo_registration), [], None)
   \<and> updateServerUrlIfRegistered (demo_env (Response Null)) ''https://first-one.trycloudflare.com''
       (fst (updateServerUrlIfRegistered (demo_env (Response Null))
          ''https://first-one.trycloudflare.com'' (Present (Json demo_registration)))) =
       (Present (Json demo_registration), [], None)"
  by (rule unchanged_url_skips_update
        [where serverId = "''Srv-42X''" and registration = demo_registration])
     (simp_all add: demo_registration_def getprop_opt_def)

text \<open>
  C3: every payload that updateServerUrlIfRegistered posts carries as \<open>link_code\<close> the
  lower-cased serverId of the stored record (which is registered), and the new URL; the
  function has no access to the link code the user once typed.
\<close>

theorem update_uses_stored_serverId:
  assumes "updateServerUrlIfRegistered e newUrl file = (file', posts, err)"
    and "p \<in> set posts"
  shows "\<exists>registration serverId.
           file = Present (Json registration)
         \<and> truthy (getprop_opt registration ''registered'')
         \<and> getprop_opt registration ''serverId'' = Str serverId
         \<and> link_code p = toLowerCase serverId
         \<and> url p = newUrl
         \<and> posts = [p]"
  using assms
  by (auto simp: updateServerUrlIfRegistered_def Let_def
           split: file_state.splits file_text.splits if_splits sum.splits jsval.splits
                  http_result.splits write_outcome.splits)

lemma demo_update:
  "updateServerUrlIfRegistered (demo_env (Response Null)) ''https://second-two.trycloudflare.com''
     (Present (Json demo_registration)) =
   (Present (Json (Obj [(''url'', Str ''https://second-two.trycloudflare.com''),
          (''userId'', Str ''ABC123''),
          (''serverId'', Str ''Srv-42X''),
          (''username'', Str ''ann''),
          (''registered'', Bool True)])),
    [\<lparr>link_code = ''srv-42x'', deviceId = ''box'', osInfo = ''{}'', hardware = ''{}'',
      url = ''https://second-two.trycloudflare.com'', models = [Str ''llama3'']\<rparr>],
    None)"
  by (simp add: updateServerUrlIfRegistered_def demo_registration_def getprop_opt_def
        demo_env_def demo_sys_def toLowerCase_def lower_char_def char_of_eq_iff)

theorem update_uses_stored_serverId_witness:
  "fst (snd (updateServerUrlIfRegistered (demo_env (Response Null))
      ''https://second-two.trycloudflare.com'' (Present (Json demo_registration)))) =
     [demo_payload]
   \<and> getprop_opt demo_registration ''serverId'' = Str ''Srv-42X''
   \<and> link_code demo_payload = toLowerCase ''Srv-42X''
   \<and> link_code demo_payload \<noteq> toLowerCase ''ABC123''"
  using update_uses_stored_serverId [OF demo_update, of demo_payload] demo_update
  by (auto simp: demo_payload_def demo_registration_def getprop_opt_def toLowerCase_def
        lower_char_def char_of_eq_iff)

section \<open>Registration without a tunnel\<close>

lemma wait_for_tunnel_none:
  "\<forall>k < maxAttempts. getCloudflaredUrl (metrics k) = None \<Longrightarrow> wait_for_tunnel metrics n = None"
proof (induction metrics n rule: wait_for_tunnel.induct)
  case (1 metrics n)
  show ?case
  proof (cases "n < maxAttempts")
    case True
    with "1.prems" have none: "getCloudflaredUrl (metrics n) = None" by simp
    then have "wait_for_tunnel metrics n = wait_for_tunnel metrics (n + 1)"
      using True by (simp add: wait_for_tunnel_next)
    with "1.IH" "1.prems" True none show ?thesis by simp
  next
    case False
    then show ?thesis by (simp add: wait_for_tunnel_end)
  qed
qed

lemma map_of_map_snd:
  "map_of (map (\<lambda>kv. (fst kv, f (snd kv))) fs) k = map_option f (map_of fs k)"
  by (induction fs) auto

lemma getprop_opt_json_clone:
  "getprop_opt (json_clone (Obj fs)) k = json_clone (getprop_opt (Obj fs) k)"
  by (simp add: getprop_opt_def map_of_map_snd split: option.splits)

lemma register_server_fallback:
  assumes "detectedTunnelUrl s = None"
    and "\<forall>k < maxAttempts. getCloudflaredUrl (metrics k) = None"
    and "collectSystemInfo e = Inr sys"
  shows "map url (fst (snd (register_server e metrics linkCode s))) = [OLLAMA_SERVER_URL e]"
    and "snd (snd (register_server e metrics linkCode s)) = RegSuccess d \<Longrightarrow>
           rd_url d = OLLAMA_SERVER_URL e"
    and "fst (register_server e metrics linkCode s) = s"
  using assms wait_for_tunnel_none [OF assms(2), of 0]
  by (auto simp: register_server_def Let_def
           split: sum.splits option.splits http_result.splits prod.splits if_splits)

lemma register_server_confirmed:
  assumes "\<And>p. post_register e p = Response body"
    and "getprop body ''code'' = Inr (Str ''SERVER_REGISTER_SUCCESS'')
         \<or> truthy (getprop_opt body ''userId'')"
    and "collectSystemInfo e = Inr sys"
  shows "\<exists>d. snd (snd (register_server e metrics linkCode s)) = RegSuccess d
             \<and> rd_registered d
             \<and> rd_serverId d = getprop_opt body ''serverId''
             \<and> rd_userId d = getprop_opt body ''userId''"
proof -
  have "\<exists>c. getprop body ''code'' = Inr c"
    using assms(2) by (cases body) (auto simp: getprop_opt_def)
  then show ?thesis using assms
    by (auto simp: register_server_def Let_def
           split: sum.splits option.splits http_result.splits prod.splits)
qed

lemma submitLinkCode_success:
  assumes "snd (snd (register_server e metrics (toUpperCase (trim input)) s)) = RegSuccess d"
    and "rd_registered d"
    and "length (toUpperCase (trim input)) = 6"
    and "writeFileSync e = Written"
  shows "registration_file (fst (submitLinkCode e metrics ts False input s)) =
           Present (Json (json_clone (registration_record d (toUpperCase (trim input)) ts)))
         \<and> snd (snd (submitLinkCode e metrics ts False input s)) = ScreenSuccess"
  using assms
  by (auto simp: submitLinkCode_def Let_def save_registration_def registration_record_def
           split: prod.splits register_result.splits)

lemma registration_record_url:
  "u \<noteq> [] \<Longrightarrow> rd_url d = u \<Longrightarrow>
     getprop_opt (json_clone (registration_record d code ts)) ''url'' = Str u"
  by (simp add: registration_record_def getprop_opt_def js_or_def)

lemma demo_code: "toUpperCase (trim '' abc123'') = ''ABC123''"
  by (simp add: toUpperCase_def trim_def is_space_def upper_char_def char_of_eq_iff)

lemma no_metrics_none: "getCloudflaredUrl (no_metrics k) = None"
  by (simp add: no_metrics_def getCloudflaredUrl_def)

lemma wait_no_metrics: "wait_for_tunnel no_metrics 0 = None"
  by (rule wait_for_tunnel_none) (simp add: no_metrics_none)

text \<open>
  C4: with no cached tunnel URL and every one of the 60 probes of the metrics endpoint
  yielding no URL, the registration is still posted, with the address of the local
  inference service (OLLAMA_SERVER_URL, a non-empty string) as \<open>url\<close>; when the
  directory service confirms it, the renderer shows the success screen and the record
  stored afterwards (the write of registration.json completing) has that address as its
  \<open>url\<close>.
\<close>

theorem fallback_url_registered:
  assumes "detectedTunnelUrl s = None"
    and "\<forall>k < maxAttempts. getCloudflaredUrl (metrics k) = None"
    and "collectSystemInfo e = Inr sys"
    and "OLLAMA_SERVER_URL e \<noteq> []"
    and "\<And>p. post_register e p = Response body"
    and "getprop body ''code'' = Inr (Str ''SERVER_REGISTER_SUCCESS'')
         \<or> truthy (getprop_opt body ''userId'')"
    and "length (toUpperCase (trim input)) = 6"
    and "writeFileSync e = Written"
  shows "map url (fst (snd (register_server e metrics linkCode s))) = [OLLAMA_SERVER_URL e]
       \<and> (\<exists>d. snd (snd (register_server e metrics linkCode s)) = RegSuccess d
              \<and> rd_url d = OLLAMA_SERVER_URL e)
       \<and> map url (fst (snd (submitLinkCode e metrics timestamp False input s))) =
           [OLLAMA_SERVER_URL e]
       \<and> snd (snd (submitLinkCode e metrics timestamp False input s)) = ScreenSuccess
       \<and> getprop_opt
           (load_registration
              (registration_file (fst (submitLinkCode e metrics timestamp False input s))))
           ''url'' = Str (OLLAMA_SERVER_URL e)"
proof -
  let ?code = "toUpperCase (trim input)"
  from register_server_confirmed [OF assms(5,6,3)] obtain d0 where
    d0: "snd (snd (register_server e metrics linkCode s)) = RegSuccess d0"
    by blast
  have u0: "rd_url d0 = OLLAMA_SERVER_URL e"
    using register_server_fallback(2) [OF assms(1-3) d0] .
  have posts0: "map url (fst (snd (register_server e metrics linkCode s))) =
      [OLLAMA_SERVER_URL e]"
    using register_server_fallback(1) [OF assms(1-3)] .
  from register_server_confirmed [OF assms(5,6,3)] obtain d where
    d: "snd (snd (register_server e metrics ?code s)) = RegSuccess d" "rd_registered d"
    by blast
  have u: "rd_url d = OLLAMA_SERVER_URL e"
    using register_server_fallback(2) [OF assms(1-3) d(1)] .
  have posts: "map url (fst (snd (register_server e metrics ?code s))) = [OLLAMA_SERVER_URL e]"
    using register_server_fallback(1) [OF assms(1-3)] .
  have same: "fst (snd (submitLinkCode e metrics timestamp False input s)) =
        fst (snd (register_server e metrics ?code s))"
    using assms(7) d
    by (auto simp: submitLinkCode_def Let_def split: prod.splits register_result.splits)
  from submitLinkCode_success [OF d assms(7,8)] have
    f: "registration_file (fst (submitLinkCode e metrics timestamp False input s)) =
           Present (Json (json_clone (registration_record d ?code timestamp)))"
    and ok: "snd (snd (submitLinkCode e metrics timestamp False input s)) = ScreenSuccess"
    by simp_all
  have "getprop_opt (json_clone (registration_record d ?code timestamp)) ''url'' =
          Str (OLLAMA_SERVER_URL e)"
    using assms(4) u by (rule registration_record_url)
  then show ?thesis using same posts posts0 d0 u0 f ok
    by (simp add: load_registration_def load_registration_try_def)
qed

theorem fallback_url_registered_witness:
  "map url (fst (snd (register_server accepting_env no_metrics ''ABC123'' initial_state))) =
     [OLLAMA_SERVER_URL accepting_env]
   \<and> (\<exists>d. snd (snd (register_server accepting_env no_metrics ''ABC123'' initial_state)) =
            RegSuccess d
          \<and> rd_url d = OLLAMA_SERVER_URL accepting_env)
   \<and> map url (fst (snd (submitLinkCode accepting_env no_metrics ''2024-05-01T10:00:00.000Z''
       False '' abc123'' initial_state))) = [OLLAMA_SERVER_URL accepting_env]
   \<and> snd (snd (submitLinkCode accepting_env no_metrics ''2024-05-01T10:00:00.000Z''
       False '' abc123'' initial_state)) = ScreenSuccess
   \<and> getprop_opt
       (load_registration
          (registration_file (fst (submitLinkCode accepting_env no_metrics
             ''2024-05-01T10:00:00.000Z'' False '' abc123'' initial_state))))
       ''url'' = Str (OLLAMA_SERVER_URL accepting_env)"
  by (rule fallback_url_registered
        [where sys = demo_sys
           and body = "Obj [(''code'', Str ''SERVER_REGISTER_SUCCESS''),
                            (''userId'', Str ''u-7''),
                            (''serverId'', Str ''Srv-42X''),
                            (''username'', Str ''ann'')]"])
     (simp_all add: initial_state_def no_metrics_none accepting_env_def demo_env_def demo_code)

section \<open>The Registration State Store\<close>

text \<open>Saving \<open>null\<close> is answered with \<open>success: true\<close> whenever \<open>unlinkSync\<close> does
  not throw.\<close>

lemma save_null_completes:
  "unlinkSync e = None \<Longrightarrow> save_registration e Null file = (Absent, SaveOk)"
  by (simp add: save_registration_def)

lemma locked_unlink:
  "save_registration locked_env Null (Present (Json demo_registration)) =
     (Present (Json demo_registration), SaveFailed ''EPERM: operation not permitted, unlink'')"
  by (simp add: save_registration_def locked_env_def demo_env_def)

text \<open>
  C5, as stated: after an explicit unlink the next load returns \<open>null\<close>, for every
  prior content of the store. It fails when \<open>unlinkSync\<close> throws: the handler's catch
  block answers \<open>success: false\<close>, the file stays, and the next load returns the old
  record, which the renderer shows as registered.
\<close>

theorem failed_unlink_keeps_record:
  "snd (save_registration locked_env Null (registration_file registered_state)) =
     SaveFailed ''EPERM: operation not permitted, unlink''
   \<and> load_registration (registration_file (unlinkServer locked_env registered_state)) =
       demo_registration
   \<and> startup_shows_registered
        (load_registration (registration_file (unlinkServer locked_env registered_state)))"
  by (simp add: unlinkServer_def registered_state_def locked_unlink load_registration_def
        load_registration_try_def startup_shows_registered_def)
     (simp add: demo_registration_def getprop_opt_def)

text \<open>
  C5, amended: after an explicit unlink that the store answers with \<open>success: true\<close>
  (saving \<open>null\<close>), whatever the file was, load-registration returns \<open>null\<close>
  without passing through its catch block, not a record with \<open>registered == false\<close>,
  and the renderer does not offer the success screen of a registered server.
\<close>

theorem unlink_then_load_is_absent:
  assumes "snd (save_registration e Null (registration_file s)) = SaveOk"
  shows "load_registration_try (fst (save_registration e Null (registration_file s))) =
           Inr Null
       \<and> load_registration (registration_file (unlinkServer e s)) = Null
       \<and> \<not> startup_shows_registered
             (load_registration (registration_file (unlinkServer e s)))"
  using assms
  by (auto simp: save_registration_def load_registration_def load_registration_try_def
        unlinkServer_def startup_shows_registered_def split: option.splits if_splits)

theorem unlink_then_load_is_absent_witness:
  "snd (save_registration (demo_env (Response Null)) Null
          (registration_file registered_state)) = SaveOk
   \<and> load_registration_try
        (fst (save_registration (demo_env (Response Null)) Null
               (registration_file registered_state))) = Inr Null
   \<and> load_registration
        (registration_file (unlinkServer (demo_env (Response Null)) registered_state)) = Null
   \<and> \<not> startup_shows_registered
         (load_registration
            (registration_file (unlinkServer (demo_env (Response Null)) registered_state)))"
proof -
  have ok: "snd (save_registration (demo_env (Response Null)) Null
          (registration_file registered_state)) = SaveOk"
    by (simp add: save_null_completes demo_env_def)
  from unlink_then_load_is_absent [OF ok] ok show ?thesis by blast
qed

text \<open>
  C7, as stated: a save is atomic with respect to a stop of the process. It is not: with
  a record stored, a stop after registration.json was opened for writing leaves a file
  that the next load reports as \<open>null\<close>, which is neither the old nor the new record.
\<close>

theorem save_is_not_crash_atomic:
  "\<not> crash_atomic (demo_env (Response Null)) moved_registration
       (Present (Json demo_registration))"
  by (simp add: crash_atomic_def save_registration_crash_points_def save_registration_def
        demo_env_def
        load_registration_def load_registration_try_def moved_registration_def
        demo_registration_def)

text \<open>
  C7, amended: a save of a record whose write completes fully overwrites what was stored
  (the next load returns the saved record, whatever the file was before); the write is in
  place, so after a stop of the process during the save the next load returns the old
  record, the new record or \<open>null\<close>.
\<close>

theorem save_overwrites_in_place:
  assumes "data \<noteq> Null" and "data \<noteq> Undefined" and "writeFileSync e = Written"
  shows "save_registration e data file = (Present (Json (json_clone data)), SaveOk)
       \<and> load_registration (fst (save_registration e data file)) = json_clone data
       \<and> (\<forall>cp \<in> set (save_registration_crash_points e data file).
             load_registration cp = load_registration file
           \<or> load_registration cp = json_clone data
           \<or> load_registration cp = Null)"
  using assms
  by (simp add: save_registration_def save_registration_crash_points_def
        load_registration_def load_registration_try_def)

theorem save_overwrites_in_place_witness:
  "save_registration (demo_env (Response Null)) moved_registration
     (Present (Json demo_registration)) =
     (Present (Json (json_clone moved_registration)), SaveOk)
   \<and> load_registration
        (fst (save_registration (demo_env (Response Null)) moved_registration
               (Present (Json demo_registration)))) =
       json_clone moved_registration
   \<and> list_all
        (\<lambda>cp. load_registration cp = load_registration (Present (Json demo_registration))
             \<or> load_registration cp = json_clone moved_registration
             \<or> load_registration cp = Null)
        (save_registration_crash_points (demo_env (Response Null)) moved_registration
           (Present (Json demo_registration)))"
proof -
  have "moved_registration \<noteq> Null" and "moved_registration \<noteq> Undefined"
    and "writeFileSync (demo_env (Response Null)) = Written"
    by (simp_all add: moved_registration_def demo_env_def)
  from save_overwrites_in_place [OF this, of "Present (Json demo_registration)"]
  show ?thesis unfolding list_all_iff by blast
qed

text \<open>
  C8, as stated: a read or parse error is surfaced distinctly from "absent". It is not:
  the catch block of load-registration returns \<open>null\<close>, the value returned when no
  file exists.
\<close>

theorem load_conflates_error_with_absent:
  "load_registration_try (Present NotJson) = Inl ''Unexpected end of JSON input''
   \<and> load_registration_try Absent = Inr Null
   \<and> load_registration (Present NotJson) = load_registration Absent
   \<and> load_registration Unreadable = load_registration Absent"
  by (simp add: load_registration_def load_registration_try_def)

text \<open>
  C8, amended: load-registration never throws; it returns the parsed record when the
  file exists and parses, and \<open>null\<close> when no file exists and also when reading or
  parsing the file fails.
\<close>

theorem load_reports_errors_as_null:
  "load_registration_try Absent = Inr Null
   \<and> load_registration file =
       (case file of
          Absent \<Rightarrow> Null
        | Unreadable \<Rightarrow> Null
        | Present NotJson \<Rightarrow> Null
        | Present (Json v) \<Rightarrow> v)"
  by (simp add: load_registration_def load_registration_try_def
           split: file_state.splits file_text.splits)

section \<open>Persisted records\<close>

lemma getprop_opt_update_same:
  "getprop_opt (Obj (AList.update k v fs)) k = v"
  by (simp add: getprop_opt_def update_conv')

lemma getprop_opt_setprop_same:
  "getprop_opt (json_clone (setprop (Obj fs) k (Str v))) k = Str v"
proof -
  have "getprop_opt (json_clone (Obj (AList.update k (Str v) fs))) k =
          json_clone (getprop_opt (Obj (AList.update k (Str v) fs)) k)"
    by (rule getprop_opt_json_clone)
  also have "\<dots> = Str v" by (simp only: getprop_opt_update_same json_clone.simps)
  finally show ?thesis by (simp only: setprop.simps)
qed

lemma update_result_file:
  "fst (updateServerUrlIfRegistered e newUrl file) = file
   \<or> fst (updateServerUrlIfRegistered e newUrl file) = Present NotJson
   \<or> (\<exists>registration.
         fst (updateServerUrlIfRegistered e newUrl file) =
           Present (Json (json_clone (setprop registration ''url'' (Str newUrl))))
       \<and> truthy (getprop_opt registration ''registered''))"
  by (auto simp: updateServerUrlIfRegistered_def Let_def
           split: file_state.splits file_text.splits if_splits sum.splits jsval.splits
                  http_result.splits write_outcome.splits)

lemma update_keeps_url:
  assumes "newUrl \<noteq> []" and "stored_url_nonempty file"
  shows "stored_url_nonempty (fst (updateServerUrlIfRegistered e newUrl file))"
proof -
  from update_result_file [of e newUrl "file"] consider
      (same) "fst (updateServerUrlIfRegistered e newUrl file) = file"
    | (torn) "fst (updateServerUrlIfRegistered e newUrl file) = Present NotJson"
    | (new) registration where
        "fst (updateServerUrlIfRegistered e newUrl file) =
           Present (Json (json_clone (setprop registration ''url'' (Str newUrl))))"
        "truthy (getprop_opt registration ''registered'')"
    by blast
  then show ?thesis
  proof cases
    case same
    with assms(2) show ?thesis by simp
  next
    case torn
    then show ?thesis by simp
  next
    case new
    from new(2) have "getprop_opt registration ''registered'' \<noteq> Undefined" by auto
    then obtain fs where "registration = Obj fs" by (auto dest: getprop_opt_defined_Obj)
    with new(1) have "fst (updateServerUrlIfRegistered e newUrl file) =
          Present (Json (json_clone (setprop (Obj fs) ''url'' (Str newUrl))))" by simp
    then show ?thesis using assms(1)
      by (simp add: getprop_opt_setprop_same del: json_clone.simps setprop.simps)
  qed
qed

lemma update_keeps_url_triple:
  "updateServerUrlIfRegistered e newUrl file = (file', posts, err) \<Longrightarrow> newUrl \<noteq> [] \<Longrightarrow>
     stored_url_nonempty file \<Longrightarrow> stored_url_nonempty file'"
  using update_keeps_url [of newUrl "file" e] by simp

lemma startCloudflaredTunnel_keeps_url:
  "stored_url_nonempty (registration_file s) \<Longrightarrow>
     stored_url_nonempty (registration_file (fst (startCloudflaredTunnel e t s)))"
  by (auto simp: startCloudflaredTunnel_def Let_def split: prod.splits option.splits
           dest: update_keeps_url_triple)

lemma monitorServices_keeps_url:
  "stored_url_nonempty (registration_file s) \<Longrightarrow>
     stored_url_nonempty (registration_file (fst (monitorServices e m t s)))"
  using startCloudflaredTunnel_keeps_url [of s e t]
  by (auto simp: monitorServices_def Let_def split: prod.splits option.splits
           dest: update_keeps_url_triple)

lemma check_cloudflared_file:
  "registration_file (fst (check_cloudflared m s)) = registration_file s"
  by (auto simp: check_cloudflared_def Let_def split: option.splits)

lemma get_tunnel_url_file:
  "registration_file (fst (get_tunnel_url a m s)) = registration_file s"
  by (auto simp: get_tunnel_url_def Let_def split: option.splits)

lemma get_system_info_file:
  "registration_file (fst (get_system_info a m s)) = registration_file s"
  by (auto simp: get_system_info_def Let_def split: option.splits)

lemma truncated_file_holds_no_record: "stored_url_nonempty (Present NotJson)"
  by simp

lemma registration_record_has_url:
  "stored_url_nonempty (Present (Json (json_clone (registration_record d code ts))))"
  by (simp add: registration_record_def getprop_opt_def js_or_def)

lemma legacy_record_has_url:
  "stored_url_nonempty (Present (Json (json_clone (legacy_record d x y z ts))))"
  by (simp add: legacy_record_def getprop_opt_def js_or_def)

lemma submitLinkCode_file:
  "registration_file (fst (submitLinkCode e m ts b input s)) = registration_file s \<or>
   registration_file (fst (submitLinkCode e m ts b input s)) = Present NotJson \<or>
   (\<exists>d. registration_file (fst (submitLinkCode e m ts b input s)) =
          Present (Json (json_clone (registration_record d (toUpperCase (trim input)) ts))))"
  using register_server_file [of e m "toUpperCase (trim input)" s]
  by (auto simp: submitLinkCode_def Let_def save_registration_def registration_record_def
           split: prod.splits register_result.splits write_outcome.splits)

lemma registerWithCode_file:
  "registration_file (fst (registerWithCode e m ts b c x y z s)) = registration_file s \<or>
   registration_file (fst (registerWithCode e m ts b c x y z s)) = Present NotJson \<or>
   (\<exists>d. registration_file (fst (registerWithCode e m ts b c x y z s)) =
          Present (Json (json_clone (legacy_record d x y z ts))))"
  using register_server_file [of e m "toUpperCase (trim c)" s]
  by (auto simp: registerWithCode_def Let_def save_registration_def legacy_record_def
           split: prod.splits register_result.splits write_outcome.splits)

lemma step_keeps_url:
  assumes "stored_url_nonempty (registration_file s)"
  shows "stored_url_nonempty (registration_file (step s ev))"
proof (cases ev)
  case (AppReady e t)
  with assms show ?thesis by (simp add: startCloudflaredTunnel_keeps_url)
next
  case (MonitorTick e m t)
  with assms show ?thesis by (simp add: monitorServices_keeps_url)
next
  case (CheckCloudflared m)
  with assms show ?thesis by (simp add: check_cloudflared_file)
next
  case (GetTunnelUrl e m)
  with assms show ?thesis by (simp add: get_tunnel_url_file)
next
  case (GetSystemInfo e m)
  with assms show ?thesis by (simp add: get_system_info_file)
next
  case (RegisterServer e m c)
  with assms show ?thesis by (simp add: register_server_file)
next
  case (SubmitLinkCode e m ts b input)
  with assms submitLinkCode_file [of e m ts b input s] show ?thesis
    using registration_record_has_url truncated_file_holds_no_record
    by (auto simp del: stored_url_nonempty.simps json_clone.simps)
next
  case (RegisterWithCode e m ts b c x y z)
  with assms registerWithCode_file [of e m ts b c x y z s] show ?thesis
    using legacy_record_has_url truncated_file_holds_no_record
    by (auto simp del: stored_url_nonempty.simps json_clone.simps)
next
  case (UnlinkServer e)
  with assms show ?thesis
    by (simp add: unlinkServer_def save_registration_def split: option.splits)
qed

lemma foldl_step_keeps_url:
  "stored_url_nonempty (registration_file s) \<Longrightarrow>
     stored_url_nonempty (registration_file (foldl step s evs))"
  by (induction evs arbitrary: s) (simp_all add: step_keeps_url)

lemma demo_submit_without_serverId:
  "registration_file
     (run [SubmitLinkCode success_without_serverId no_metrics ''2024-05-01T10:00:00.000Z''
             False '' abc123'']) =
   Present (Json demo_saved_record)"
  by (simp add: run_def initial_state_def submitLinkCode_def demo_code register_server_def
        success_without_serverId_def demo_env_def demo_sys_def wait_no_metrics
        getprop_opt_def save_registration_def registration_record_def js_or_def Let_def
        demo_saved_record_def)

text \<open>
  C6, as stated: every persisted record with \<open>registered == true\<close> has a non-empty
  serverId and a non-empty url. It fails for the serverId: an answer with the success
  code and no serverId is accepted, and the record stored has \<open>registered: true\<close> and
  no serverId.
\<close>

theorem registered_record_without_serverId:
  "\<not> record_invariant
       (load_registration
          (registration_file
             (run [SubmitLinkCode success_without_serverId no_metrics
                     ''2024-05-01T10:00:00.000Z'' False '' abc123''])))"
  by (simp add: demo_submit_without_serverId load_registration_def load_registration_try_def
        record_invariant_def getprop_opt_def demo_saved_record_def)

text \<open>
  C6, amended: every record stored after any sequence of runs of the application, from
  a fresh installation, that has \<open>registered == true\<close> has a non-empty \<open>url\<close>; its
  serverId is whatever the directory service answered and may be missing.
\<close>

theorem persisted_record_has_url:
  assumes "registration_file (run events) = Present (Json r)"
    and "getprop_opt r ''registered'' = Bool True"
  shows "\<exists>u. getprop_opt r ''url'' = Str u \<and> u \<noteq> []"
proof -
  have "stored_url_nonempty (registration_file (run events))"
    unfolding run_def by (rule foldl_step_keeps_url) (simp add: initial_state_def)
  with assms(1) show ?thesis by (auto split: jsval.splits)
qed

theorem persisted_record_has_url_witness:
  "getprop_opt demo_saved_record ''registered'' = Bool True
   \<and> (\<exists>u. getprop_opt demo_saved_record ''url'' = Str u \<and> u \<noteq> [])"
proof
  show r: "getprop_opt demo_saved_record ''registered'' = Bool True"
    by (simp add: demo_saved_record_def getprop_opt_def)
  show "\<exists>u. getprop_opt demo_saved_record ''url'' = Str u \<and> u \<noteq> []"
    using demo_submit_without_serverId r by (rule persisted_record_has_url)
qed

end
